theory Spec2Isabelle
  imports Main "HOL-Library.Sublist"
begin

section \<open>Python values, errors and insertion-ordered dictionaries\<close>

text \<open>
  The exceptions of the modelled code: the \<^verbatim>\<open>assert\<close> of \<^verbatim>\<open>zipWith\<close>,
  the call of a value that is not callable, and the access to an attribute a value
  does not have.
\<close>

datatype error = AssertionError | TypeError | AttributeError

text \<open>
  Modelled from the spec: the payload type a Parameter wraps (ValueCapability) is not
  part of the sources. An object payload records whether its class exposes the
  \<^verbatim>\<open>requires_grad_\<close> operation, the flag that operation sets, and the object's own
  \<^verbatim>\<open>name\<close> field.
\<close>

record pyobject =
  has_method_requires_grad :: bool
  requires_grad :: bool
  obj_name :: "string option"
  obj_data :: int

text \<open>
  A Module is a tree node: its class name, the instance dictionary's plain entries
  (which hold \<^verbatim>\<open>training\<close>), and the two insertion-ordered dictionaries
  \<^verbatim>\<open>_modules\<close> and \<^verbatim>\<open>_parameters\<close>. Python dictionaries keep insertion
  order, so each is an association list. The plain entries are those of the instance
  dictionary other than the two dictionaries themselves. A value bound to a name or
  wrapped by a Parameter may be anything, a Module or a Parameter included.
\<close>

datatype pyval =
    PyNone
  | PyBool bool
  | PyInt int
  | PyStr string
  | PyObj pyobject
  | PyParam parameter
  | PyModule module
and parameter =
    Parameter (pvalue: pyval) (pname: "string option")
and module =
    Module (cls: string) (fields: "(string \<times> pyval) list")
           (modules_d: "(string \<times> module) list")
           (parameters_d: "(string \<times> parameter) list")

type_synonym ('k, 'v) dict = "('k \<times> 'v) list"

text \<open>
  What reading an attribute of a Module can yield: a value, one of the two
  dictionaries themselves, or an attribute of the class (a method bound to the
  instance, or what class \<^verbatim>\<open>object\<close> provides), named but not modelled further.
\<close>

datatype attr =
    Value pyval
  | ModulesDict "(string \<times> module) list"
  | ParametersDict "(string \<times> parameter) list"
  | ClassAttribute string

text \<open>\<^verbatim>\<open>d[k] = v\<close>: an existing key keeps its position, a new key goes to the end.\<close>

fun dict_set :: "('k, 'v) dict \<Rightarrow> 'k \<Rightarrow> 'v \<Rightarrow> ('k, 'v) dict" where
  "dict_set [] k v = [(k, v)]"
| "dict_set ((k', v') # d) k v =
     (if k' = k then (k, v) # d else (k', v') # dict_set d k v)"

text \<open>\<^verbatim>\<open>k in d\<close> and \<^verbatim>\<open>d[k]\<close> together: \<open>None\<close> when the key is missing.\<close>

fun dict_get :: "('k, 'v) dict \<Rightarrow> 'k \<Rightarrow> 'v option" where
  "dict_get [] k = None"
| "dict_get ((k', v') # d) k = (if k' = k then Some v' else dict_get d k)"

definition dict_keys :: "('k, 'v) dict \<Rightarrow> 'k list" where
  "dict_keys d = map fst d"

definition dict_values :: "('k, 'v) dict \<Rightarrow> 'v list" where
  "dict_values d = map snd d"

section \<open>operators.py: zipWith\<close>

text \<open>The \<^verbatim>\<open>for e1, e2 in zip(ls1, ls2)\<close> loop, appending to \<^verbatim>\<open>new_ls\<close>.\<close>

fun zipWith_loop :: "('a \<Rightarrow> 'b \<Rightarrow> 'c) \<Rightarrow> 'c list \<Rightarrow> 'a list \<Rightarrow> 'b list \<Rightarrow> 'c list" where
  "zipWith_loop fn new_ls (e1 # ls1) (e2 # ls2) = zipWith_loop fn (new_ls @ [fn e1 e2]) ls1 ls2"
| "zipWith_loop fn new_ls _ _ = new_ls"

definition zipWith :: "('a \<Rightarrow> 'b \<Rightarrow> 'c) \<Rightarrow> 'a list \<Rightarrow> 'b list \<Rightarrow> error + 'c list" where
  "zipWith fn ls1 ls2 =
     (if length ls1 \<noteq> length ls2 then Inl AssertionError
      else Inr (zipWith_loop fn [] ls1 ls2))"

section \<open>module.py: Module construction, registration and attribute reads\<close>

text \<open>
  \<^verbatim>\<open>__init__\<close>: both dictionaries empty, \<^verbatim>\<open>training = True\<close>. The three assignments
  go through \<^verbatim>\<open>__setattr__\<close>, whose last branch stores them as plain entries of the
  instance dictionary. The class name is what \<^verbatim>\<open>self.__class__.__name__\<close> reads.
\<close>

definition Module_init :: "string \<Rightarrow> module" where
  "Module_init c = Module c [(''training'', PyBool True)] [] []"

definition modules :: "module \<Rightarrow> module list" where
  "modules m = dict_values (modules_d m)"

definition named_children :: "module \<Rightarrow> (string \<times> module) list" where
  "named_children m = map (\<lambda>(name, child). (name, child)) (modules_d m)"

text \<open>
  \<^verbatim>\<open>__setattr__\<close>: a Parameter goes to \<^verbatim>\<open>_parameters\<close>, else a Module goes to
  \<^verbatim>\<open>_modules\<close>, else the value is an ordinary attribute.
\<close>

fun setattr :: "module \<Rightarrow> string \<Rightarrow> pyval \<Rightarrow> module" where
  "setattr (Module c fs ms ps) key val =
     (case val of
        PyParam p \<Rightarrow> Module c fs ms (dict_set ps key p)
      | PyModule m \<Rightarrow> Module c fs (dict_set ms key m) ps
      | _ \<Rightarrow> Module c (dict_set fs key val) ms ps)"

text \<open>
  \<^verbatim>\<open>__getattr__\<close>, which Python calls only when the ordinary lookup has found
  nothing: the parameters, then the child modules, then \<^verbatim>\<open>None\<close>.
\<close>

definition getattr_fallback :: "module \<Rightarrow> string \<Rightarrow> pyval" where
  "getattr_fallback m key =
     (if dict_get (parameters_d m) key \<noteq> None then PyParam (the (dict_get (parameters_d m) key))
      else if dict_get (modules_d m) key \<noteq> None then PyModule (the (dict_get (modules_d m) key))
      else PyNone)"

text \<open>
  The names bound in the body of class Module in module.py, and the names that the
  class creation adds to it.
\<close>

definition Module_class_attributes :: "string list" where
  "Module_class_attributes =
     [''__init__'', ''modules'', ''named_children'', ''train'', ''eval'',
      ''named_parameters'', ''parameters'', ''add_parameter'', ''__setattr__'',
      ''__getattr__'', ''__call__'', ''__repr__'',
      ''__module__'', ''__annotations__'', ''__doc__'', ''__dict__'', ''__weakref__'']"

text \<open>
  The names every instance inherits from class \<^verbatim>\<open>object\<close>. They are Python's
  (CPython 3.11), not the repository's.
\<close>

definition object_attributes :: "string list" where
  "object_attributes =
     [''__class__'', ''__delattr__'', ''__dir__'', ''__doc__'', ''__eq__'', ''__format__'',
      ''__ge__'', ''__getattribute__'', ''__getstate__'', ''__gt__'', ''__hash__'',
      ''__init__'', ''__init_subclass__'', ''__le__'', ''__lt__'', ''__ne__'', ''__new__'',
      ''__reduce__'', ''__reduce_ex__'', ''__repr__'', ''__setattr__'', ''__sizeof__'',
      ''__str__'', ''__subclasshook__'']"

text \<open>
  The class attributes that are data descriptors: the instance dictionary cannot
  shadow them.
\<close>

definition data_descriptors :: "string list" where
  "data_descriptors = [''__class__'', ''__dict__'', ''__weakref__'']"

text \<open>
  The instance dictionary: \<^verbatim>\<open>__init__\<close> stores the two dictionaries in it under
  \<^verbatim>\<open>_modules\<close> and \<^verbatim>\<open>_parameters\<close>, beside the plain entries. A plain value
  bound to one of these two names later takes the place of the dictionary.
\<close>

definition instance_entry :: "module \<Rightarrow> string \<Rightarrow> attr option" where
  "instance_entry m key =
     (case dict_get (fields m) key of
        Some v \<Rightarrow> Some (Value v)
      | None \<Rightarrow>
          if key = ''_modules'' then Some (ModulesDict (modules_d m))
          else if key = ''_parameters'' then Some (ParametersDict (parameters_d m))
          else None)"

text \<open>
  The ordinary lookup of Python, \<^verbatim>\<open>object.__getattribute__\<close>: the data descriptors
  of the class, then the instance dictionary, then the other class attributes;
  \<open>None\<close> where it would raise \<^verbatim>\<open>AttributeError\<close>.
\<close>

definition getattribute :: "module \<Rightarrow> string \<Rightarrow> attr option" where
  "getattribute m key =
     (if key \<in> set data_descriptors then Some (ClassAttribute key)
      else (case instance_entry m key of
              Some a \<Rightarrow> Some a
            | None \<Rightarrow>
                if key \<in> set (Module_class_attributes @ object_attributes)
                then Some (ClassAttribute key)
                else None))"

text \<open>
  The attribute read \<^verbatim>\<open>m.key\<close>: the ordinary lookup first, and \<^verbatim>\<open>__getattr__\<close>
  where that finds nothing. Without \<^verbatim>\<open>__getattr__\<close> a missing name would raise
  \<^verbatim>\<open>AttributeError\<close>; with it the read returns whatever the hook returns.
\<close>

definition Module_getattr :: "module \<Rightarrow> string \<Rightarrow> error + attr" where
  "Module_getattr m key =
     (case getattribute m key of
        Some a \<Rightarrow> Inr a
      | None \<Rightarrow> Inr (Value (getattr_fallback m key)))"

section \<open>module.py: Parameter\<close>

text \<open>
  \<^verbatim>\<open>hasattr(x, "requires_grad_")\<close> is true unless reading the attribute raises
  \<^verbatim>\<open>AttributeError\<close>. Class Parameter has no such attribute, nor have the builtin
  values; a Module is read through \<^verbatim>\<open>Module_getattr\<close>.
\<close>

fun hasattr_requires_grad :: "pyval \<Rightarrow> bool" where
  "hasattr_requires_grad (PyObj ob) = has_method_requires_grad ob"
| "hasattr_requires_grad (PyModule m) =
     (case Module_getattr m ''requires_grad_'' of Inl e \<Rightarrow> False | Inr f \<Rightarrow> True)"
| "hasattr_requires_grad _ = False"

text \<open>
  Calling a value. \<^verbatim>\<open>None\<close>, booleans, numbers, strings, payload objects and
  Parameters are not callable. A Module is called through \<^verbatim>\<open>__call__\<close>, which calls
  \<^verbatim>\<open>self.forward\<close>: class Module defines no such method, so the name is read like any
  other attribute and the value found is called in turn. Methods that a subclass of
  Module adds are not part of the model. The two dictionaries are not callable; the
  read of \<^verbatim>\<open>forward\<close> never yields a class attribute, that name not being one.
\<close>

function py_call :: "pyval \<Rightarrow> error + pyval" where
  "py_call v =
     (case v of
        PyModule c \<Rightarrow>
          (case Module_getattr c ''forward'' of
             Inl e \<Rightarrow> Inl e
           | Inr a \<Rightarrow> (case a of Value f \<Rightarrow> py_call f | _ \<Rightarrow> Inl TypeError))
      | _ \<Rightarrow> Inl TypeError)"
  by pat_completeness auto
termination
proof (relation "measure size")
  show "wf (measure size)" by simp
next
  fix v :: pyval and c a f
  assume v: "v = PyModule c" and g: "Module_getattr c ''forward'' = Inr a" and a: "a = Value f"
  have sz: "dict_get d k = Some x \<Longrightarrow> h x < Suc (size_list (size_prod (\<lambda>_. 0) h) d)"
    for d :: "(string \<times> 'v) list" and k x and h :: "'v \<Rightarrow> nat"
    by (induction d) (auto split: if_splits)
  obtain n fs ms ps where c: "c = Module n fs ms ps" by (cases c)
  have "size f < size (PyModule c)"
    using g a sz [of fs "''forward''" f size] sz [of ps "''forward''" _ size]
      sz [of ms "''forward''" _ size]
    by (auto simp: c Module_getattr_def getattribute_def instance_entry_def
        getattr_fallback_def split: option.splits if_splits)
  with v show "(f, v) \<in> measure size" by simp
qed

declare py_call.simps [simp del]

text \<open>
  \<^verbatim>\<open>x.requires_grad_(True)\<close>: the value after the call, or the exception. On a
  Module the name is no class attribute, so the read yields a value, which is called.
\<close>

fun call_requires_grad :: "pyval \<Rightarrow> error + pyval" where
  "call_requires_grad (PyObj ob) =
     (if has_method_requires_grad ob then Inr (PyObj (ob\<lparr>requires_grad := True\<rparr>))
      else Inl AttributeError)"
| "call_requires_grad (PyModule m) =
     (case Module_getattr m ''requires_grad_'' of
        Inl e \<Rightarrow> Inl e
      | Inr a \<Rightarrow>
          (case a of
             Value f \<Rightarrow> (case py_call f of Inl e \<Rightarrow> Inl e | Inr r \<Rightarrow> Inr (PyModule m))
           | _ \<Rightarrow> Inl TypeError))"
| "call_requires_grad _ = Inl AttributeError"

text \<open>\<^verbatim>\<open>x.name = n\<close>: the value after the assignment, or the exception.\<close>

fun set_name :: "pyval \<Rightarrow> string \<Rightarrow> error + pyval" where
  "set_name (PyObj ob) n = Inr (PyObj (ob\<lparr>obj_name := Some n\<rparr>))"
| "set_name (PyModule m) n = Inr (PyModule (setattr m ''name'' (PyStr n)))"
| "set_name _ n = Inl AttributeError"

text \<open>
  The body shared by \<^verbatim>\<open>Parameter.__init__\<close> and \<^verbatim>\<open>Parameter.update\<close>: the value
  that ends up in \<^verbatim>\<open>self.value\<close>. \<^verbatim>\<open>if self.name\<close> is false for \<^verbatim>\<open>None\<close> and for
  the empty string.
\<close>

definition store_value :: "pyval \<Rightarrow> string option \<Rightarrow> error + pyval" where
  "store_value x name =
     (if hasattr_requires_grad x then
        (case call_requires_grad x of
           Inl e \<Rightarrow> Inl e
         | Inr x' \<Rightarrow>
             (case name of
                None \<Rightarrow> Inr x'
              | Some n \<Rightarrow> if n \<noteq> [] then set_name x' n else Inr x'))
      else Inr x)"

definition Parameter_init :: "pyval \<Rightarrow> string option \<Rightarrow> error + parameter" where
  "Parameter_init x name =
     (case store_value x name of Inl e \<Rightarrow> Inl e | Inr x' \<Rightarrow> Inr (Parameter x' name))"

definition update :: "parameter \<Rightarrow> pyval \<Rightarrow> error + parameter" where
  "update self x =
     (case store_value x (pname self) of
        Inl e \<Rightarrow> Inl e
      | Inr x' \<Rightarrow> Inr (Parameter x' (pname self)))"

text \<open>
  \<^verbatim>\<open>add_parameter\<close>: the Parameter is built first; when that raises, the dictionary
  is not touched. The result is the Module after the call and the new Parameter.
\<close>

definition add_parameter :: "module \<Rightarrow> string \<Rightarrow> pyval \<Rightarrow> error + (module \<times> parameter)" where
  "add_parameter self k v =
     (case Parameter_init v (Some k) of
        Inl e \<Rightarrow> Inl e
      | Inr val \<Rightarrow>
          Inr (Module (cls self) (fields self) (modules_d self)
                 (dict_set (parameters_d self) k val), val))"

section \<open>module.py: flattening the parameters of a tree\<close>

text \<open>The children of a Module are smaller than the Module: the traversals end.\<close>

lemma size_children:
  "sum_list (map (\<lambda>(n, m). size m) (modules_d self)) < size self"
proof -
  have "sum_list (map (\<lambda>(n, m). size m) ms) \<le> size_list (size_prod (\<lambda>_. 0) size) ms"
    for ms :: "(string \<times> module) list"
    by (induction ms) auto
  from this [of "modules_d self"] show ?thesis by (cases self) simp
qed

text \<open>
  The \<^verbatim>\<open>while\<close> loop of \<^verbatim>\<open>named_parameters\<close>: \<^verbatim>\<open>to_add\<close> is the queue,
  \<^verbatim>\<open>popleft\<close> takes its head and \<^verbatim>\<open>extend\<close> appends at its end.
\<close>

function named_parameters_loop ::
  "(string \<times> parameter) list \<Rightarrow> (string \<times> module) list \<Rightarrow> (string \<times> parameter) list" where
  "named_parameters_loop params [] = params"
| "named_parameters_loop params ((name, mChild) # to_add) =
     named_parameters_loop
       (params @ map (\<lambda>(n, p). (name @ ''.'' @ n, p)) (parameters_d mChild))
       (to_add @ map (\<lambda>(n, m). (name @ ''.'' @ n, m)) (named_children mChild))"
  by pat_completeness auto
termination
proof (relation "measure (\<lambda>(params, to_add). sum_list (map (\<lambda>(n, m). size m) to_add))")
  show "wf (measure (\<lambda>(params, to_add). sum_list (map (\<lambda>(n, m). size m) to_add)))" by simp
next
  fix params :: "(string \<times> parameter) list" and name mChild and to_add :: "(string \<times> module) list"
  have "sum_list (map (\<lambda>(n, m). size m) (map (\<lambda>(n, m). (name @ ''.'' @ n, m)) (named_children mChild)))
        = sum_list (map (\<lambda>(n, m). size m) (modules_d mChild))"
    by (simp add: named_children_def comp_def case_prod_unfold)
  with size_children [of mChild]
  show "((params @ map (\<lambda>(n, p). (name @ ''.'' @ n, p)) (parameters_d mChild),
          to_add @ map (\<lambda>(n, m). (name @ ''.'' @ n, m)) (named_children mChild)),
         params, (name, mChild) # to_add)
        \<in> measure (\<lambda>(params, to_add). sum_list (map (\<lambda>(n, m). size m) to_add))"
    by simp
qed

definition named_parameters :: "module \<Rightarrow> (string \<times> parameter) list" where
  "named_parameters self =
     named_parameters_loop (map (\<lambda>(n, p). (n, p)) (parameters_d self)) (named_children self)"

text \<open>The \<^verbatim>\<open>while\<close> loop of \<^verbatim>\<open>parameters\<close>, over a queue of Modules.\<close>

function parameters_loop :: "parameter list \<Rightarrow> module list \<Rightarrow> parameter list" where
  "parameters_loop params [] = params"
| "parameters_loop params (mChild # to_add) =
     parameters_loop (params @ dict_values (parameters_d mChild)) (to_add @ modules mChild)"
  by pat_completeness auto
termination
proof (relation "measure (\<lambda>(params, to_add). sum_list (map size to_add))")
  show "wf (measure (\<lambda>(params, to_add). sum_list (map size to_add)))" by simp
next
  fix params :: "parameter list" and mChild and to_add :: "module list"
  have "sum_list (map size (modules mChild)) = sum_list (map (\<lambda>(n, m). size m) (modules_d mChild))"
    by (simp add: modules_def dict_values_def comp_def case_prod_unfold)
  with size_children [of mChild]
  show "((params @ dict_values (parameters_d mChild), to_add @ modules mChild),
         params, mChild # to_add)
        \<in> measure (\<lambda>(params, to_add). sum_list (map size to_add))"
    by simp
qed

definition parameters :: "module \<Rightarrow> parameter list" where
  "parameters self = parameters_loop (dict_values (parameters_d self)) (modules self)"

section \<open>module.py: the textual rendering\<close>

definition nl :: string where
  "nl = [CHR 0x0A]"

text \<open>\<^verbatim>\<open>s.split("\n")\<close>: the pieces between the newlines, one more than there are newlines.\<close>

fun split_nl :: "string \<Rightarrow> string list" where
  "split_nl [] = [[]]"
| "split_nl (c # s) =
     (if c = CHR 0x0A then [] # split_nl s
      else (case split_nl s of [] \<Rightarrow> [[c]] | l # ls \<Rightarrow> (c # l) # ls))"

text \<open>\<^verbatim>\<open>sep.join(xs)\<close>.\<close>

fun join :: "string \<Rightarrow> string list \<Rightarrow> string" where
  "join sep [] = []"
| "join sep [x] = x"
| "join sep (x # y # xs) = x @ sep @ join sep (y # xs)"

definition addindent :: "string \<Rightarrow> nat \<Rightarrow> string" where
  "addindent s0 numSpaces =
     (let s2 = split_nl s0 in
      if length s2 = 1 then s0
      else
        let first = hd s2;
            s2' = map (\<lambda>line. replicate numSpaces CHR '' '' @ line) (tl s2);
            s = join nl s2'
        in first @ nl @ s)"

fun repr :: "module \<Rightarrow> string" where
  "repr (Module c fs ms ps) =
     (let child_lines =
            map (\<lambda>(key, child). ''('' @ key @ ''): '' @ addindent (repr child) 2) ms;
          main_str = c @ ''(''
      in (if child_lines \<noteq> []
          then main_str @ nl @ ''  '' @ join (nl @ ''  '') child_lines @ nl
          else main_str) @ '')'')"

section \<open>The level order of the spec\<close>

text \<open>
  Following the spec's words for \<^verbatim>\<open>named_parameters\<close>, not the code: the parameters
  found \<open>k\<close> levels below a Module reached under the qualified name \<open>path\<close>, each keyed
  by the dot-joined path from the root, the children taken in insertion order.
\<close>

fun level_parameters :: "nat \<Rightarrow> string \<Rightarrow> module \<Rightarrow> (string \<times> parameter) list" where
  "level_parameters 0 path m = map (\<lambda>(n, p). (path @ ''.'' @ n, p)) (parameters_d m)"
| "level_parameters (Suc k) path m =
     concat (map (\<lambda>(n, c). level_parameters k (path @ ''.'' @ n) c) (modules_d m))"

text \<open>One block per Module of a queue: what that Module's subtree holds \<open>k\<close> levels down.\<close>

definition level_blocks ::
  "nat \<Rightarrow> (string \<times> module) list \<Rightarrow> (string \<times> parameter) list list" where
  "level_blocks k q = map (\<lambda>(n, c). level_parameters k n c) q"

text \<open>
  The spec's result: the Module's own entries under their bare names, then level 1,
  level 2 and so on. A tree has fewer levels than nodes, and the levels below the
  deepest one are empty, so \<open>size self\<close> levels are all of them.
\<close>

definition named_parameters_spec :: "module \<Rightarrow> (string \<times> parameter) list" where
  "named_parameters_spec self =
     parameters_d self @
     concat (map (\<lambda>k. concat (level_blocks k (modules_d self))) [0..<size self])"

text \<open>The queue one level further down: every child of every queued Module, qualified.\<close>

definition next_level :: "(string \<times> module) list \<Rightarrow> (string \<times> module) list" where
  "next_level q =
     concat (map (\<lambda>(name, m). map (\<lambda>(n, c). (name @ ''.'' @ n, c)) (modules_d m)) q)"

section \<open>module.py: train and eval\<close>

text \<open>
  \<^verbatim>\<open>train\<close> and \<^verbatim>\<open>eval\<close> assign to Modules that the tree holds. A reference to a
  Module of the tree is the path of child positions that leads to it from the root;
  the root is the empty path.
\<close>

type_synonym ref = "nat list"

text \<open>The Module a reference leads to; \<open>None\<close> when the path leaves the tree.\<close>

fun deref :: "module \<Rightarrow> ref \<Rightarrow> module option" where
  "deref m [] = Some m"
| "deref m (i # r) =
     (if i < length (modules_d m) then deref (snd (modules_d m ! i)) r else None)"

text \<open>\<^verbatim>\<open>obj.key = val\<close> on the Module the reference leads to: the tree after it.\<close>

fun assign :: "module \<Rightarrow> ref \<Rightarrow> string \<Rightarrow> pyval \<Rightarrow> module" where
  "assign m [] key val = setattr m key val"
| "assign (Module c fs ms ps) (i # r) key val =
     (if i < length ms
      then Module c fs (ms[i := (fst (ms ! i), assign (snd (ms ! i)) r key val)]) ps
      else Module c fs ms ps)"

text \<open>\<^verbatim>\<open>obj.modules()\<close> on the Module the reference leads to, as references.\<close>

definition modules_refs :: "module \<Rightarrow> ref \<Rightarrow> ref list" where
  "modules_refs root r =
     (case deref root r of
        None \<Rightarrow> []
      | Some m \<Rightarrow> map (\<lambda>i. r @ [i]) [0..<length (modules m)])"

text \<open>
  The number of Modules of a tree, and of the subtree at a reference. Assigning a
  boolean to a field changes neither, nor the number of children anywhere: the
  queue loops end.
\<close>

fun nodes :: "module \<Rightarrow> nat" where
  "nodes (Module c fs ms ps) = Suc (sum_list (map (\<lambda>(n, child). nodes child) ms))"

definition weight :: "module \<Rightarrow> ref \<Rightarrow> nat" where
  "weight root r = (case deref root r of None \<Rightarrow> 1 | Some m \<Rightarrow> nodes m)"

lemma modules_d_setattr_bool [simp]: "modules_d (setattr m key (PyBool b)) = modules_d m"
  by (cases m) simp

lemma nodes_setattr_bool [simp]: "nodes (setattr m key (PyBool b)) = nodes m"
  by (cases m) simp

lemma map_update_same: "i < length xs \<Longrightarrow> f y = f (xs ! i) \<Longrightarrow> map f (xs[i := y]) = map f xs"
  by (simp add: map_update list_update_same_conv)

lemma nodes_assign [simp]: "nodes (assign m r key (PyBool b)) = nodes m"
proof (induction r arbitrary: m)
  case Nil
  then show ?case by simp
next
  case (Cons i r)
  obtain c fs ms ps where m: "m = Module c fs ms ps" by (cases m)
  show ?case
  proof (cases "i < length ms")
    case True
    have "map (\<lambda>(n, child). nodes child) (ms[i := (fst (ms ! i), assign (snd (ms ! i)) r key (PyBool b))])
          = map (\<lambda>(n, child). nodes child) ms"
      using True by (intro map_update_same) (simp_all add: Cons.IH case_prod_unfold)
    with True show ?thesis by (simp add: m)
  next
    case False
    then show ?thesis by (simp add: m)
  qed
qed

lemma deref_assign_nodes:
  "map_option nodes (deref (assign m r key (PyBool b)) r') = map_option nodes (deref m r')"
proof (induction r' arbitrary: m r)
  case Nil
  then show ?case by simp
next
  case (Cons i r')
  obtain c fs ms ps where m: "m = Module c fs ms ps" by (cases m)
  show ?case
  proof (cases r)
    case Nil
    then show ?thesis by simp
  next
    case (Cons j r0)
    show ?thesis
    proof (cases "j < length ms")
      case True
      then show ?thesis using Cons.IH [of "snd (ms ! j)" r0]
        by (cases "i = j") (simp_all add: m Cons)
    next
      case False
      then show ?thesis by (simp add: m Cons)
    qed
  qed
qed

lemma weight_assign [simp]: "weight (assign m r key (PyBool b)) = weight m"
proof
  fix r'
  show "weight (assign m r key (PyBool b)) r' = weight m r'"
    using deref_assign_nodes [of m r key b r']
    by (auto simp: weight_def split: option.splits)
qed

lemma length_modules_assign [simp]:
  "length (modules_d (assign m r key (PyBool b))) = length (modules_d m)"
  by (cases m; cases r) simp_all

lemma deref_assign_arity:
  "map_option (\<lambda>c. length (modules_d c)) (deref (assign m r key (PyBool b)) r') =
   map_option (\<lambda>c. length (modules_d c)) (deref m r')"
proof (induction r' arbitrary: m r)
  case Nil
  then show ?case by simp
next
  case (Cons i r')
  obtain c fs ms ps where m: "m = Module c fs ms ps" by (cases m)
  show ?case
  proof (cases r)
    case Nil
    then show ?thesis by simp
  next
    case (Cons j r0)
    show ?thesis
    proof (cases "j < length ms")
      case True
      then show ?thesis using Cons.IH [of "snd (ms ! j)" r0]
        by (cases "i = j") (simp_all add: m Cons)
    next
      case False
      then show ?thesis by (simp add: m Cons)
    qed
  qed
qed

lemma deref_append:
  "deref m (r @ s) = (case deref m r of None \<Rightarrow> None | Some c \<Rightarrow> deref c s)"
  by (induction r arbitrary: m) simp_all

lemma nodes_children:
  "sum_list (map (\<lambda>i. nodes (snd (modules_d m ! i))) [0..<length (modules_d m)]) < nodes m"
proof -
  have "map (\<lambda>i. nodes (snd (ms ! i))) [0..<length ms] = map (\<lambda>(n, child). nodes child) ms"
    for ms :: "(string \<times> module) list"
    by (intro nth_equalityI) (simp_all add: case_prod_unfold)
  then show ?thesis by (cases m) simp
qed

lemma weight_modules_refs:
  "sum_list (map (weight root) (modules_refs root r)) < weight root r"
proof (cases "deref root r")
  case None
  then show ?thesis by (simp add: modules_refs_def weight_def)
next
  case (Some m)
  have "map (weight root) (modules_refs root r) =
        map (\<lambda>i. nodes (snd (modules_d m ! i))) [0..<length (modules_d m)]"
    using Some by (simp add: modules_refs_def weight_def deref_append modules_def dict_values_def)
  with nodes_children [of m] Some show ?thesis by (simp add: weight_def)
qed

lemma modules_refs_assign [simp]:
  "modules_refs (assign root r key (PyBool b)) r' = modules_refs root r'"
  using deref_assign_arity [of root r key b r']
  by (auto simp: modules_refs_def modules_def dict_values_def split: option.splits)

text \<open>
  The \<^verbatim>\<open>while\<close> loop of \<^verbatim>\<open>train\<close>: \<^verbatim>\<open>popleft\<close>, the assignment through
  \<^verbatim>\<open>__setattr__\<close>, and \<^verbatim>\<open>extend\<close> with the children read after the assignment.
\<close>

function train_loop :: "module \<Rightarrow> ref list \<Rightarrow> module" where
  "train_loop root [] = root"
| "train_loop root (mChild # to_set) =
     (let root' = assign root mChild ''training'' (PyBool True)
      in train_loop root' (to_set @ modules_refs root' mChild))"
  by pat_completeness auto
termination
proof (relation "measure (\<lambda>(root, to_set). sum_list (map (weight root) to_set))")
  show "wf (measure (\<lambda>(root, to_set). sum_list (map (weight root) to_set)))" by simp
next
  fix root mChild to_set root'
  assume "root' = assign root mChild ''training'' (PyBool True)"
  then show "((root', to_set @ modules_refs root' mChild), root, mChild # to_set)
      \<in> measure (\<lambda>(root, to_set). sum_list (map (weight root) to_set))"
    using weight_modules_refs [of root' mChild] by (simp add: comp_def)
qed

definition train :: "module \<Rightarrow> module" where
  "train self =
     (let self' = setattr self ''training'' (PyBool True)
      in train_loop self' (modules_refs self' []))"

text \<open>The same for \<^verbatim>\<open>eval\<close>.\<close>

function eval_loop :: "module \<Rightarrow> ref list \<Rightarrow> module" where
  "eval_loop root [] = root"
| "eval_loop root (mChild # to_set) =
     (let root' = assign root mChild ''training'' (PyBool False)
      in eval_loop root' (to_set @ modules_refs root' mChild))"
  by pat_completeness auto
termination
proof (relation "measure (\<lambda>(root, to_set). sum_list (map (weight root) to_set))")
  show "wf (measure (\<lambda>(root, to_set). sum_list (map (weight root) to_set)))" by simp
next
  fix root mChild to_set root'
  assume "root' = assign root mChild ''training'' (PyBool False)"
  then show "((root', to_set @ modules_refs root' mChild), root, mChild # to_set)
      \<in> measure (\<lambda>(root, to_set). sum_list (map (weight root) to_set))"
    using weight_modules_refs [of root' mChild] by (simp add: comp_def)
qed

definition eval_mode :: "module \<Rightarrow> module" where
  "eval_mode self =
     (let self' = setattr self ''training'' (PyBool False)
      in eval_loop self' (modules_refs self' []))"

text \<open>
  The references in the order in which such a loop takes them from its queue, and
  the tree after assigning the mode at a list of references one after the other.
\<close>

function visit_order :: "module \<Rightarrow> ref list \<Rightarrow> ref list" where
  "visit_order root [] = []"
| "visit_order root (mChild # to_set) =
     mChild # visit_order root (to_set @ modules_refs root mChild)"
  by pat_completeness auto
termination
proof (relation "measure (\<lambda>(root, to_set). sum_list (map (weight root) to_set))")
  show "wf (measure (\<lambda>(root, to_set). sum_list (map (weight root) to_set)))" by simp
next
  fix root mChild to_set
  show "((root, to_set @ modules_refs root mChild), root, mChild # to_set)
      \<in> measure (\<lambda>(root, to_set). sum_list (map (weight root) to_set))"
    using weight_modules_refs [of root mChild] by simp
qed

definition set_all :: "bool \<Rightarrow> module \<Rightarrow> ref list \<Rightarrow> module" where
  "set_all b root rs = foldl (\<lambda>m r. assign m r ''training'' (PyBool b)) root rs"

section \<open>Notions for the proofs about train and eval\<close>

text \<open>The references at and below a reference: what a queue entry will make the loop visit.\<close>

definition below :: "module \<Rightarrow> ref \<Rightarrow> ref set" where
  "below root r = {r @ s | s. s = [] \<or> deref root (r @ s) \<noteq> None}"

text \<open>A queue in which no reference is a prefix of another: it is visited without repetition.\<close>

definition antichain :: "ref list \<Rightarrow> bool" where
  "antichain q \<longleftrightarrow> distinct q \<and> (\<forall>r \<in> set q. \<forall>r' \<in> set q. prefix r r' \<longrightarrow> r = r')"

text \<open>The mode read at a reference.\<close>

definition training_at :: "module \<Rightarrow> ref \<Rightarrow> pyval option" where
  "training_at root r =
     (case deref root r of None \<Rightarrow> None | Some m \<Rightarrow> dict_get (fields m) ''training'')"

section \<open>Properties of zipWith\<close>

lemma zipWith_loop_map2:
  "zipWith_loop fn acc xs ys = acc @ map2 fn xs ys"
  by (induction fn acc xs ys rule: zipWith_loop.induct) simp_all

text \<open>
  C9: zipWith fn fails with an assertion error whenever the two lists differ in
  length; for lists of equal length it returns, without failing, the list of that
  length whose i-th element is fn applied to the i-th elements of the inputs.
\<close>

theorem zipWith_spec:
  "(length ls1 \<noteq> length ls2 \<longrightarrow> zipWith fn ls1 ls2 = Inl AssertionError) \<and>
   (length ls1 = length ls2 \<longrightarrow>
      (\<exists>zs. zipWith fn ls1 ls2 = Inr zs \<and> length zs = length ls1 \<and>
            (\<forall>i < length ls1. zs ! i = fn (ls1 ! i) (ls2 ! i))))"
  by (simp add: zipWith_def zipWith_loop_map2)

theorem zipWith_spec_witness:
  "zipWith (+) [1, 2 :: int] [10] = Inl AssertionError \<and>
   (\<exists>zs. zipWith (+) [1, 2 :: int] [10, 20] = Inr zs \<and> length zs = 2 \<and>
         zs ! 0 = 11 \<and> zs ! 1 = 22)"
proof -
  have a: "zipWith (+) [1, 2 :: int] [10] = Inl AssertionError"
    using zipWith_spec [of "[1, 2 :: int]" "[10]" "(+)"] by simp
  from zipWith_spec [of "[1, 2 :: int]" "[10, 20]" "(+)"]
  obtain zs where zs: "zipWith (+) [1, 2 :: int] [10, 20] = Inr zs" "length zs = 2"
    "\<forall>i<2. zs ! i = [1, 2] ! i + [10, 20] ! i"
    by auto
  from zs(3) have "zs ! 0 = 11" "zs ! 1 = 22" by simp_all
  with a zs(1,2) show ?thesis by blast
qed

section \<open>Properties of the dictionaries\<close>

lemma dict_get_set_same: "dict_get (dict_set d k v) k = Some v"
  by (induction d) auto

lemma dict_get_set_other: "k' \<noteq> k \<Longrightarrow> dict_get (dict_set d k v) k' = dict_get d k'"
  by (induction d) auto

lemma dict_set_keys_present:
  "k \<in> set (dict_keys d) \<Longrightarrow> dict_keys (dict_set d k v) = dict_keys d"
  by (induction d) (force simp: dict_keys_def)+

lemma dict_set_keys_absent:
  "k \<notin> set (dict_keys d) \<Longrightarrow> dict_set d k v = d @ [(k, v)]"
  by (induction d) (auto simp: dict_keys_def)

section \<open>Properties of registration and attribute reads\<close>

text \<open>
  C3: binding a name to a Module and then to a Parameter, or the other way round,
  leaves the name in both dictionaries, each with the value bound to it: a binding
  writes only the dictionary of its value's class and leaves the other one as it is.
\<close>

theorem setattr_collision:
  "dict_get (modules_d (setattr (setattr m x (PyModule c)) x (PyParam p))) x = Some c \<and>
   dict_get (parameters_d (setattr (setattr m x (PyModule c)) x (PyParam p))) x = Some p \<and>
   dict_get (modules_d (setattr (setattr m x (PyParam p)) x (PyModule c))) x = Some c \<and>
   dict_get (parameters_d (setattr (setattr m x (PyParam p)) x (PyModule c))) x = Some p \<and>
   modules_d (setattr m x (PyParam p)) = modules_d m \<and>
   parameters_d (setattr m x (PyModule c)) = parameters_d m"
  by (cases m) (simp add: dict_get_set_same)

text \<open>
  The reads of \<^verbatim>\<open>forward\<close> and \<^verbatim>\<open>requires_grad_\<close>, which class Module does not
  define, yield a plain entry or what \<^verbatim>\<open>__getattr__\<close> returns.
\<close>

lemma getattribute_forward:
  "getattribute m ''forward'' = map_option Value (dict_get (fields m) ''forward'')"
  by (simp add: getattribute_def instance_entry_def data_descriptors_def
      Module_class_attributes_def object_attributes_def split: option.splits)

lemma getattribute_requires_grad:
  "getattribute m ''requires_grad_'' = map_option Value (dict_get (fields m) ''requires_grad_'')"
  by (simp add: getattribute_def instance_entry_def data_descriptors_def
      Module_class_attributes_def object_attributes_def split: option.splits)

lemma Module_getattr_requires_grad_fresh:
  "Module_getattr (Module_init c) ''requires_grad_'' = Inr (Value PyNone)"
  by (simp add: Module_getattr_def getattribute_requires_grad getattr_fallback_def Module_init_def)




section \<open>Properties of Parameter\<close>

text \<open>No value of the model is callable: the chain of \<^verbatim>\<open>forward\<close> reads is finite.\<close>

lemma py_call_TypeError: "py_call v = Inl TypeError"
proof (induction v rule: py_call.induct)
  case (1 v)
  show ?case
  proof (cases v)
    case (PyModule c)
    then show ?thesis using 1
      by (subst py_call.simps)
        (auto simp: Module_getattr_def split: option.splits sum.splits attr.splits)
  qed (simp_all add: py_call.simps)
qed

lemma store_value_Module: "store_value (PyModule m) name = Inl TypeError"
  by (simp add: store_value_def Module_getattr_def getattribute_requires_grad
      py_call_TypeError split: option.splits)

lemma store_value_not_Module:
  assumes "\<forall>m. x \<noteq> PyModule m"
  shows "store_value x name =
    Inr (case x of
           PyObj ob \<Rightarrow>
             if has_method_requires_grad ob then
               PyObj (ob\<lparr>requires_grad := True,
                          obj_name := (case name of None \<Rightarrow> obj_name ob
                                       | Some n \<Rightarrow> if n \<noteq> [] then Some n else obj_name ob)\<rparr>)
             else x
         | _ \<Rightarrow> x)"
  using assms by (cases x) (auto simp: store_value_def split: option.splits)

text \<open>
  C4, as the code has it: for a payload that is not a Module, construction and
  update return a Parameter and do not raise. A payload with the
  \<^verbatim>\<open>requires_grad_\<close> operation has had it called with \<^verbatim>\<open>True\<close>, and its own name
  field holds the Parameter's name when that name is set and not empty. A payload
  without the operation is stored as it is, its name field included.
\<close>

theorem Parameter_capability_invariant:
  assumes "\<forall>m. x \<noteq> PyModule m"
  shows "\<exists>x'. Parameter_init x name = Inr (Parameter x' name) \<and>
              update (Parameter old name) x = Inr (Parameter x' name) \<and>
              (hasattr_requires_grad x \<longrightarrow>
                 (\<exists>ob. x = PyObj ob \<and>
                    x' = PyObj (ob\<lparr>requires_grad := True,
                      obj_name := (case name of None \<Rightarrow> obj_name ob
                                   | Some n \<Rightarrow> if n \<noteq> [] then Some n else obj_name ob)\<rparr>))) \<and>
              (\<not> hasattr_requires_grad x \<longrightarrow> x' = x)"
  using assms
  by (cases x) (auto simp: Parameter_init_def update_def store_value_not_Module)

theorem Parameter_capability_invariant_witness:
  "Parameter_init
     (PyObj \<lparr>has_method_requires_grad = True, requires_grad = False, obj_name = None, obj_data = 5\<rparr>)
     (Some ''w'') =
   Inr (Parameter
     (PyObj \<lparr>has_method_requires_grad = True, requires_grad = True, obj_name = Some ''w'', obj_data = 5\<rparr>)
     (Some ''w'')) \<and>
   update (Parameter (PyInt 1) (Some ''w''))
     (PyObj \<lparr>has_method_requires_grad = True, requires_grad = False, obj_name = None, obj_data = 5\<rparr>) =
   Inr (Parameter
     (PyObj \<lparr>has_method_requires_grad = True, requires_grad = True, obj_name = Some ''w'', obj_data = 5\<rparr>)
     (Some ''w''))"
  using Parameter_capability_invariant
    [of "PyObj \<lparr>has_method_requires_grad = True, requires_grad = False, obj_name = None, obj_data = 5\<rparr>"
        "Some ''w''" "PyInt 1"]
  by auto

text \<open>
  C4 as stated fails in three ways. A payload that has a name field but not the
  operation keeps its old name although the Parameter's name is set; a payload with
  the operation keeps its old name when the Parameter's name is the empty string;
  and a Module payload makes construction and update raise \<^verbatim>\<open>TypeError\<close>.
\<close>

theorem Parameter_claim_counterexample:
  "Parameter_init
     (PyObj \<lparr>has_method_requires_grad = False, requires_grad = False, obj_name = None, obj_data = 5\<rparr>)
     (Some ''w'') =
   Inr (Parameter
     (PyObj \<lparr>has_method_requires_grad = False, requires_grad = False, obj_name = None, obj_data = 5\<rparr>)
     (Some ''w'')) \<and>
   Parameter_init
     (PyObj \<lparr>has_method_requires_grad = True, requires_grad = False, obj_name = None, obj_data = 5\<rparr>)
     (Some '''') =
   Inr (Parameter
     (PyObj \<lparr>has_method_requires_grad = True, requires_grad = True, obj_name = None, obj_data = 5\<rparr>)
     (Some '''')) \<and>
   Parameter_init (PyModule (Module_init ''Module'')) None = Inl TypeError \<and>
   update (Parameter (PyInt 1) None) (PyModule (Module_init ''Module'')) = Inl TypeError"
  by (simp add: Parameter_init_def update_def store_value_def Module_getattr_def
      getattribute_requires_grad getattr_fallback_def Module_init_def py_call_TypeError)

section \<open>Properties of add\_parameter\<close>

text \<open>
  For a value that is not a Module, \<^verbatim>\<open>add_parameter\<close> wraps it in a new Parameter
  named \<open>k\<close> and stores that under \<open>k\<close> in the parameters; the children and the plain
  fields stay as they are.
\<close>

lemma add_parameter_not_Module:
  assumes "\<forall>m. v \<noteq> PyModule m"
  shows "\<exists>v' self'. add_parameter self k v = Inr (self', Parameter v' (Some k)) \<and>
           store_value v (Some k) = Inr v' \<and>
           parameters_d self' = dict_set (parameters_d self) k (Parameter v' (Some k)) \<and>
           modules_d self' = modules_d self \<and> fields self' = fields self \<and>
           cls self' = cls self"
  using store_value_not_Module [OF assms, of "Some k"]
  by (simp add: add_parameter_def Parameter_init_def)

text \<open>
  C10: \<^verbatim>\<open>add_parameter\<close> is to wrap any value, a Module included. On a Module value
  the code raises \<^verbatim>\<open>TypeError\<close> instead and stores nothing: \<^verbatim>\<open>hasattr\<close> holds for
  every name on a Module, because \<^verbatim>\<open>__getattr__\<close> returns \<^verbatim>\<open>None\<close> where it should
  raise, and the \<^verbatim>\<open>None\<close> read for \<^verbatim>\<open>requires_grad_\<close> is then called.
\<close>

theorem add_parameter_Module_payload:
  "add_parameter (Module_init ''Module'') ''k'' (PyModule (Module_init ''Module'')) = Inl TypeError"
  by (simp add: add_parameter_def Parameter_init_def store_value_Module)

section \<open>Properties of the parameter traversals\<close>

lemma named_children_eq: "named_children m = modules_d m"
  by (simp add: named_children_def)

lemma level_blocks_Suc: "concat (level_blocks (Suc k) q) = concat (level_blocks k (next_level q))"
  by (induction q) (auto simp: level_blocks_def next_level_def comp_def case_prod_unfold)

lemma named_loop_prefix:
  "named_parameters_loop (pre @ acc) q = pre @ named_parameters_loop acc q"
  by (induction acc q arbitrary: pre rule: named_parameters_loop.induct) simp_all

lemma named_loop_acc: "named_parameters_loop acc q = acc @ named_parameters_loop [] q"
  using named_loop_prefix [of acc "[]" q] by simp

lemma named_loop_level:
  "named_parameters_loop [] (q @ K) =
     concat (level_blocks 0 q) @ named_parameters_loop [] (K @ next_level q)"
proof (induction q arbitrary: K)
  case Nil
  then show ?case by (simp add: level_blocks_def next_level_def)
next
  case (Cons x q)
  obtain name m where x: "x = (name, m)" by (cases x)
  have "named_parameters_loop [] ((x # q) @ K) =
        level_parameters 0 name m @
        named_parameters_loop [] (q @ (K @ map (\<lambda>(n, c). (name @ ''.'' @ n, c)) (modules_d m)))"
    using named_loop_acc [of "level_parameters 0 name m"]
    by (simp add: x named_children_eq)
  also have "\<dots> = level_parameters 0 name m @ concat (level_blocks 0 q) @
        named_parameters_loop [] ((K @ map (\<lambda>(n, c). (name @ ''.'' @ n, c)) (modules_d m)) @ next_level q)"
    by (simp only: Cons.IH)
  finally show ?case by (simp add: x level_blocks_def next_level_def)
qed

lemma sum_size_next_level:
  "q \<noteq> [] \<Longrightarrow> sum_list (map (\<lambda>(n, m). size m) (next_level q)) < sum_list (map (\<lambda>(n, m). size m) q)"
proof (induction q)
  case Nil
  then show ?case by simp
next
  case (Cons x q)
  obtain name m where x: "x = (name, m)" by (cases x)
  have a: "sum_list (map (\<lambda>(n, m). size m) (map (\<lambda>(n, c). (name @ ''.'' @ n, c)) (modules_d m))) < size m"
    using size_children [of m] by (simp add: comp_def case_prod_unfold)
  show ?case
  proof (cases "q = []")
    case True
    then show ?thesis using a by (simp add: x next_level_def)
  next
    case False
    with Cons.IH a show ?thesis by (simp add: x next_level_def)
  qed
qed

lemma level_blocks_Nil: "level_blocks k [] = []"
  by (simp add: level_blocks_def)

lemma concat_upt_Suc_shift:
  "concat (map f [0..<Suc N]) = f 0 @ concat (map (\<lambda>k. f (Suc k)) [0..<N])"
proof -
  have "[0..<Suc N] = 0 # map Suc [0..<N]"
    by (simp add: upt_conv_Cons map_Suc_upt del: upt_Suc)
  then show ?thesis by (simp add: comp_def del: upt_Suc)
qed

lemma named_loop_levels:
  "sum_list (map (\<lambda>(n, m). size m) q) \<le> N \<Longrightarrow>
   named_parameters_loop [] q = concat (map (\<lambda>k. concat (level_blocks k q)) [0..<N])"
proof (induction N arbitrary: q)
  case 0
  have "q = []"
  proof (cases q)
    case (Cons x xs)
    obtain n m where "x = (n, m)" by (cases x)
    with Cons 0 show ?thesis by (cases m) simp
  qed simp
  then show ?case by simp
next
  case (Suc N)
  show ?case
  proof (cases "q = []")
    case True
    then show ?thesis by (simp add: level_blocks_Nil del: upt_Suc)
  next
    case False
    from sum_size_next_level [OF False] Suc.prems
    have "sum_list (map (\<lambda>(n, m). size m) (next_level q)) \<le> N" by simp
    from Suc.IH [OF this]
    have "named_parameters_loop [] (next_level q) =
          concat (map (\<lambda>k. concat (level_blocks (Suc k) q)) [0..<N])"
      by (simp add: level_blocks_Suc)
    moreover have "named_parameters_loop [] q =
          concat (level_blocks 0 q) @ named_parameters_loop [] (next_level q)"
      using named_loop_level [of q "[]"] by simp
    ultimately show ?thesis
      by (simp only: concat_upt_Suc_shift [of "\<lambda>k. concat (level_blocks k q)"])
  qed
qed

lemma named_parameters_own:
  "named_parameters self = parameters_d self @ named_parameters_loop [] (modules_d self)"
  using named_loop_acc [of "parameters_d self" "modules_d self"]
  by (simp add: named_parameters_def named_children_eq)

lemma named_parameters_levels:
  "size self \<le> N \<Longrightarrow>
   named_parameters self =
     parameters_d self @ concat (map (\<lambda>k. concat (level_blocks k (modules_d self))) [0..<N])"
  using named_loop_levels [of "modules_d self" N] size_children [of self]
  by (simp add: named_parameters_own)

lemma parameters_loop_named:
  "parameters_loop (map snd acc) (map snd q) = map snd (named_parameters_loop acc q)"
proof (induction acc q rule: named_parameters_loop.induct)
  case (1 params)
  then show ?case by simp
next
  case (2 params name mChild to_add)
  have "map snd (map (\<lambda>(n, p). (name @ ''.'' @ n, p)) (parameters_d mChild)) = dict_values (parameters_d mChild)"
    by (simp add: dict_values_def comp_def case_prod_unfold)
  moreover have "map snd (map (\<lambda>(n, m). (name @ ''.'' @ n, m)) (named_children mChild)) = modules mChild"
    by (simp add: modules_def dict_values_def named_children_eq comp_def case_prod_unfold)
  ultimately show ?case using 2 by simp
qed

lemma dict_set_in_place:
  "key \<in> set (dict_keys d) \<Longrightarrow>
   \<exists>i<length d. fst (d ! i) = key \<and> (\<forall>j<i. fst (d ! j) \<noteq> key) \<and>
      dict_set d key v = d[i := (key, v)]"
proof (induction d)
  case Nil
  then show ?case by (simp add: dict_keys_def)
next
  case (Cons x d)
  obtain k' v' where x: "x = (k', v')" by (cases x)
  show ?case
  proof (cases "k' = key")
    case True
    then have "fst ((x # d) ! 0) = key \<and> (\<forall>j<0. fst ((x # d) ! j) \<noteq> key) \<and>
      dict_set (x # d) key v = (x # d)[0 := (key, v)]"
      by (simp add: x)
    then show ?thesis by blast
  next
    case False
    with Cons.prems have "key \<in> set (dict_keys d)" by (simp add: x dict_keys_def)
    from Cons.IH [OF this] obtain i where i: "i < length d" "fst (d ! i) = key"
      "\<forall>j<i. fst (d ! j) \<noteq> key" "dict_set d key v = d[i := (key, v)]" by blast
    have "\<forall>j<Suc i. fst ((x # d) ! j) \<noteq> key"
    proof (intro allI impI)
      fix j assume "j < Suc i"
      then show "fst ((x # d) ! j) \<noteq> key" using False i(3) by (cases j) (simp_all add: x)
    qed
    with i False have "Suc i < length (x # d) \<and> fst ((x # d) ! Suc i) = key \<and>
      (\<forall>j<Suc i. fst ((x # d) ! j) \<noteq> key) \<and>
      dict_set (x # d) key v = (x # d)[Suc i := (key, v)]"
      by (simp add: x)
    then show ?thesis by blast
  qed
qed

lemma level_blocks_update:
  "level_blocks k (ms[i := (key, c)]) = (level_blocks k ms)[i := level_parameters k key c]"
  by (simp add: level_blocks_def map_update)

text \<open>
  C1: \<^verbatim>\<open>named_parameters\<close> returns the Module's own parameters under their bare
  names in insertion order, then the parameters of the descendants level by level,
  each under the dot-joined path from the root. A root whose child \<^verbatim>\<open>sub\<close> holds the
  parameter \<^verbatim>\<open>p\<close> yields the single pair of \<^verbatim>\<open>sub.p\<close> and that Parameter.
\<close>

theorem named_parameters_level_order:
  "named_parameters self = named_parameters_spec self \<and>
   named_parameters (setattr (Module_init c1) ''sub''
      (PyModule (setattr (Module_init c2) ''p'' (PyParam (Parameter (PyInt 5) None))))) =
     [(''sub.p'', Parameter (PyInt 5) None)]"
  by (simp add: named_parameters_spec_def named_parameters_levels [of self "size self"])
    (simp add: named_parameters_def Module_init_def named_children_def)

text \<open>
  C6: \<^verbatim>\<open>parameters\<close> returns the Parameters of \<^verbatim>\<open>named_parameters\<close>, in the same
  order, with the names dropped.
\<close>

theorem parameters_named_parameters:
  "parameters self = map snd (named_parameters self)"
  using parameters_loop_named [of "parameters_d self" "modules_d self"]
  by (simp add: parameters_def named_parameters_def modules_def dict_values_def named_children_eq)

text \<open>
  C7: binding a name that the parameters (or the children) already hold replaces the
  entry at its position. For a Parameter, the result of \<^verbatim>\<open>named_parameters\<close> changes
  at that position only. For a child, each level of the result is made of one block
  per child; the blocks of the other children stay where they were, unchanged.
\<close>

theorem rebinding_in_place:
  "(key \<in> set (dict_keys (parameters_d m)) \<longrightarrow>
      (\<exists>i<length (parameters_d m). fst (parameters_d m ! i) = key \<and>
          parameters_d (setattr m key (PyParam p)) = (parameters_d m)[i := (key, p)] \<and>
          modules_d (setattr m key (PyParam p)) = modules_d m \<and>
          named_parameters (setattr m key (PyParam p)) = (named_parameters m)[i := (key, p)])) \<and>
   (key \<in> set (dict_keys (modules_d m)) \<longrightarrow>
      (\<exists>i<length (modules_d m). fst (modules_d m ! i) = key \<and>
          modules_d (setattr m key (PyModule c)) = (modules_d m)[i := (key, c)] \<and>
          parameters_d (setattr m key (PyModule c)) = parameters_d m \<and>
          (\<exists>N. named_parameters m =
                 parameters_d m @
                 concat (map (\<lambda>k. concat (level_blocks k (modules_d m))) [0..<N]) \<and>
               named_parameters (setattr m key (PyModule c)) =
                 parameters_d m @
                 concat (map (\<lambda>k. concat ((level_blocks k (modules_d m))
                                  [i := level_parameters k key c])) [0..<N]))))"
proof (intro conjI impI)
  assume "key \<in> set (dict_keys (parameters_d m))"
  from dict_set_in_place [OF this, of p] obtain i where
    i: "i < length (parameters_d m)" "fst (parameters_d m ! i) = key"
       "dict_set (parameters_d m) key p = (parameters_d m)[i := (key, p)]" by blast
  have a: "parameters_d (setattr m key (PyParam p)) = (parameters_d m)[i := (key, p)]"
    and b: "modules_d (setattr m key (PyParam p)) = modules_d m"
    using i(3) by (cases m; simp)+
  have "named_parameters (setattr m key (PyParam p)) = (named_parameters m)[i := (key, p)]"
    using i(1) by (simp add: named_parameters_own a b list_update_append)
  with i a b show "\<exists>i<length (parameters_d m). fst (parameters_d m ! i) = key \<and>
          parameters_d (setattr m key (PyParam p)) = (parameters_d m)[i := (key, p)] \<and>
          modules_d (setattr m key (PyParam p)) = modules_d m \<and>
          named_parameters (setattr m key (PyParam p)) = (named_parameters m)[i := (key, p)]"
    by blast
next
  let ?m' = "setattr m key (PyModule c)"
  assume "key \<in> set (dict_keys (modules_d m))"
  from dict_set_in_place [OF this, of c] obtain i where
    i: "i < length (modules_d m)" "fst (modules_d m ! i) = key"
       "dict_set (modules_d m) key c = (modules_d m)[i := (key, c)]" by blast
  have a: "modules_d ?m' = (modules_d m)[i := (key, c)]"
    and b: "parameters_d ?m' = parameters_d m"
    using i(3) by (cases m; simp)+
  define N where "N = max (size m) (size ?m')"
  have "named_parameters m =
          parameters_d m @ concat (map (\<lambda>k. concat (level_blocks k (modules_d m))) [0..<N])"
    by (rule named_parameters_levels) (simp add: N_def)
  moreover have "named_parameters ?m' =
          parameters_d m @
          concat (map (\<lambda>k. concat ((level_blocks k (modules_d m))[i := level_parameters k key c])) [0..<N])"
    using named_parameters_levels [of ?m' N]
    by (simp add: N_def a b level_blocks_update)
  ultimately show "\<exists>i<length (modules_d m). fst (modules_d m ! i) = key \<and>
          modules_d ?m' = (modules_d m)[i := (key, c)] \<and>
          parameters_d ?m' = parameters_d m \<and>
          (\<exists>N. named_parameters m =
                 parameters_d m @
                 concat (map (\<lambda>k. concat (level_blocks k (modules_d m))) [0..<N]) \<and>
               named_parameters ?m' =
                 parameters_d m @
                 concat (map (\<lambda>k. concat ((level_blocks k (modules_d m))
                                  [i := level_parameters k key c])) [0..<N]))"
    using i a b by blast
qed

theorem rebinding_in_place_witness:
  "''w'' \<in> set (dict_keys (parameters_d
      (Module ''M'' [] [(''a'', Module ''A'' [] [] [(''q'', Parameter (PyInt 2) None)])]
         [(''w'', Parameter (PyInt 1) None), (''b'', Parameter (PyInt 3) None)]))) \<and>
   ''a'' \<in> set (dict_keys (modules_d
      (Module ''M'' [] [(''a'', Module ''A'' [] [] [(''q'', Parameter (PyInt 2) None)])]
         [(''w'', Parameter (PyInt 1) None), (''b'', Parameter (PyInt 3) None)]))) \<and>
   named_parameters (setattr
      (Module ''M'' [] [(''a'', Module ''A'' [] [] [(''q'', Parameter (PyInt 2) None)])]
         [(''w'', Parameter (PyInt 1) None), (''b'', Parameter (PyInt 3) None)])
      ''w'' (PyParam (Parameter (PyInt 9) None))) =
     [(''w'', Parameter (PyInt 9) None), (''b'', Parameter (PyInt 3) None),
      (''a.q'', Parameter (PyInt 2) None)] \<and>
   modules_d (setattr
      (Module ''M'' [] [(''a'', Module ''A'' [] [] [(''q'', Parameter (PyInt 2) None)])]
         [(''w'', Parameter (PyInt 1) None), (''b'', Parameter (PyInt 3) None)])
      ''a'' (PyModule (Module ''B'' [] [] []))) =
     [(''a'', Module ''B'' [] [] [])]"
proof -
  let ?m = "Module ''M'' [] [(''a'', Module ''A'' [] [] [(''q'', Parameter (PyInt 2) None)])]
         [(''w'', Parameter (PyInt 1) None), (''b'', Parameter (PyInt 3) None)]"
  let ?p = "Parameter (PyInt 9) None"
  let ?c = "Module ''B'' [] [] []"
  have h1: "''w'' \<in> set (dict_keys (parameters_d ?m))" by (simp add: dict_keys_def)
  have h2: "''a'' \<in> set (dict_keys (modules_d ?m))" by (simp add: dict_keys_def)
  have np: "named_parameters ?m =
      [(''w'', Parameter (PyInt 1) None), (''b'', Parameter (PyInt 3) None),
       (''a.q'', Parameter (PyInt 2) None)]"
    by (simp add: named_parameters_def named_children_def)
  from rebinding_in_place [of "''w''" ?m ?p ?c, THEN conjunct1, THEN mp, OF h1]
  obtain i where i: "i < length (parameters_d ?m)" "fst (parameters_d ?m ! i) = ''w''"
    "named_parameters (setattr ?m ''w'' (PyParam ?p)) = (named_parameters ?m)[i := (''w'', ?p)]"
    by blast
  from i(1) have "i = 0 \<or> i = 1" by auto
  with i(2) have "i = 0" by auto
  with i(3) np have r1: "named_parameters (setattr ?m ''w'' (PyParam ?p)) =
      [(''w'', ?p), (''b'', Parameter (PyInt 3) None), (''a.q'', Parameter (PyInt 2) None)]"
    by simp
  from rebinding_in_place [of "''a''" ?m ?p ?c, THEN conjunct2, THEN mp, OF h2]
  obtain j where j: "j < length (modules_d ?m)"
    "modules_d (setattr ?m ''a'' (PyModule ?c)) = (modules_d ?m)[j := (''a'', ?c)]"
    by blast
  from j(1) have "j = 0" by simp
  with j(2) have r2: "modules_d (setattr ?m ''a'' (PyModule ?c)) = [(''a'', ?c)]"
    by simp
  from h1 h2 r1 r2 show ?thesis by (intro conjI)
qed

section \<open>Properties of the textual rendering\<close>

lemma split_nl_nonempty: "split_nl s \<noteq> []"
  by (induction s) (auto split: list.splits)

lemma split_nl_lines: "l \<in> set (split_nl s) \<Longrightarrow> CHR 0x0A \<notin> set l"
  by (induction s arbitrary: l) (auto split: list.splits if_splits)

lemma split_nl_no_newline: "CHR 0x0A \<notin> set l \<Longrightarrow> split_nl l = [l]"
  by (induction l) auto

lemma split_nl_append:
  "CHR 0x0A \<notin> set l \<Longrightarrow> split_nl (l @ CHR 0x0A # t) = l # split_nl t"
  by (induction l) auto

lemma join_Cons: "xs \<noteq> [] \<Longrightarrow> join sep (x # xs) = x @ sep @ join sep xs"
  by (cases xs) simp_all

lemma split_nl_join:
  "ls \<noteq> [] \<Longrightarrow> \<forall>l\<in>set ls. CHR 0x0A \<notin> set l \<Longrightarrow> split_nl (join nl ls) = ls"
proof (induction ls rule: list_nonempty_induct)
  case (single x)
  then show ?case by (simp add: split_nl_no_newline)
next
  case (cons x xs)
  then show ?case by (simp add: join_Cons nl_def split_nl_append del: join.simps)
qed

lemma join_split_nl: "join nl (split_nl s) = s"
proof (induction s)
  case Nil
  then show ?case by simp
next
  case (Cons c s)
  obtain l ls where sp: "split_nl s = l # ls" using split_nl_nonempty [of s] by (cases "split_nl s") auto
  show ?case
  proof (cases "c = CHR 0x0A")
    case True
    with Cons sp show ?thesis by (simp add: nl_def)
  next
    case False
    with Cons sp show ?thesis by (cases ls) (auto simp: nl_def)
  qed
qed

lemma addindent_lines:
  "split_nl (addindent s n) =
     hd (split_nl s) # map (\<lambda>line. replicate n CHR '' '' @ line) (tl (split_nl s))"
proof -
  obtain l ls where sp: "split_nl s = l # ls"
    using split_nl_nonempty [of s] by (cases "split_nl s") auto
  show ?thesis
  proof (cases ls)
    case Nil
    with sp show ?thesis by (simp add: addindent_def)
  next
    case (Cons l' ls')
    let ?rest = "map (\<lambda>line. replicate n CHR '' '' @ line) ls"
    have l: "CHR 0x0A \<notin> set l" using split_nl_lines [of l s] sp by simp
    have "\<forall>x\<in>set ?rest. CHR 0x0A \<notin> set x"
      using split_nl_lines [of _ s] sp by auto
    moreover have "?rest \<noteq> []" using Cons by simp
    ultimately have "split_nl (join nl ?rest) = ?rest" by (rule split_nl_join [rotated])
    with l sp Cons show ?thesis
      by (simp add: addindent_def nl_def split_nl_append del: join.simps)
  qed
qed

lemma join_prefix:
  "xs \<noteq> [] \<Longrightarrow> sep @ join sep xs = concat (map (\<lambda>x. sep @ x) xs)"
proof (induction xs rule: list_nonempty_induct)
  case (single x)
  then show ?case by simp
next
  case (cons x xs)
  then show ?case by (simp add: join_Cons del: join.simps)
qed

lemma split_nl_concat: "CHR 0x0A \<notin> set (concat (split_nl s))"
  using split_nl_lines [of _ s] by auto

lemma addindent_join:
  "addindent s n =
     join nl (hd (split_nl s) # map (\<lambda>line. replicate n CHR '' '' @ line) (tl (split_nl s)))"
proof -
  obtain l ls where sp: "split_nl s = l # ls"
    using split_nl_nonempty [of s] by (cases "split_nl s") auto
  show ?thesis
  proof (cases ls)
    case Nil
    with sp join_split_nl [of s] show ?thesis by (simp add: addindent_def)
  next
    case (Cons l' ls')
    with sp show ?thesis by (simp add: addindent_def join_Cons del: join.simps)
  qed
qed

text \<open>
  C8: a Module renders as its class name and an opening parenthesis, then one line
  per child in insertion order, each on a new line behind two spaces and made of the
  child's name in parentheses, a colon, and the child's own rendering with two more
  spaces before every line after its first, then a new line and the closing
  parenthesis. The lines of a text are its pieces between the newlines: there is at
  least one, none holds a newline, and joined by newlines they give the text back.
  Without children a Module renders as the class name and \<^verbatim>\<open>()\<close>; a Root with the
  single child \<^verbatim>\<open>inner\<close> of class Leaf renders on three lines; in nested trees
  the indentation grows by two spaces with every level.
\<close>

theorem repr_format:
  "repr m =
     cls m @ ''('' @
     (if modules_d m = [] then ''''
      else concat (map (\<lambda>(key, child). nl @ ''  '' @ ''('' @ key @ ''): '' @ addindent (repr child) 2)
                    (modules_d m)) @ nl) @
     '')'' \<and>
   split_nl (addindent s 2) = hd (split_nl s) # map (\<lambda>line. ''  '' @ line) (tl (split_nl s)) \<and>
   join nl (split_nl s) = s \<and>
   repr (Module c fs [] ps) = c @ ''()'' \<and>
   repr (setattr (Module_init ''Root'') ''inner'' (PyModule (Module_init ''Leaf''))) =
     ''Root('' @ nl @ ''  (inner): Leaf()'' @ nl @ '')'' \<and>
   split_nl s \<noteq> [] \<and>
   CHR 0x0A \<notin> set (concat (split_nl s)) \<and>
   addindent s 2 = join nl (hd (split_nl s) # map (\<lambda>line. ''  '' @ line) (tl (split_nl s))) \<and>
   addindent (''x'' @ nl @ ''y'' @ nl @ ''z'') 2 = ''x'' @ nl @ ''  y'' @ nl @ ''  z'' \<and>
   repr (setattr (setattr (Module_init ''Root'') ''a''
      (PyModule (setattr (Module_init ''A'') ''c'' (PyModule (Module_init ''C'')))))
      ''b'' (PyModule (Module_init ''B''))) =
     ''Root('' @ nl @
     ''  (a): A('' @ nl @
     ''    (c): C()'' @ nl @
     ''  )'' @ nl @
     ''  (b): B()'' @ nl @
     '')'' \<and>
   repr (setattr (Module_init ''Root'') ''a''
      (PyModule (setattr (Module_init ''A'') ''b''
         (PyModule (setattr (Module_init ''B'') ''c'' (PyModule (Module_init ''C''))))))) =
     ''Root('' @ nl @
     ''  (a): A('' @ nl @
     ''    (b): B('' @ nl @
     ''      (c): C()'' @ nl @
     ''    )'' @ nl @
     ''  )'' @ nl @
     '')''"
proof (intro conjI)
  obtain c fs ms ps where m: "m = Module c fs ms ps" by (cases m)
  let ?lines = "map (\<lambda>(key, child). ''('' @ key @ ''): '' @ addindent (repr child) 2) ms"
  show "repr m =
     cls m @ ''('' @
     (if modules_d m = [] then ''''
      else concat (map (\<lambda>(key, child). nl @ ''  '' @ ''('' @ key @ ''): '' @ addindent (repr child) 2)
                    (modules_d m)) @ nl) @
     '')''"
  proof (cases "ms = []")
    case True
    then show ?thesis by (simp add: m)
  next
    case False
    then have "(nl @ ''  '') @ join (nl @ ''  '') ?lines = concat (map (\<lambda>x. (nl @ ''  '') @ x) ?lines)"
      by (intro join_prefix) simp
    then have "nl @ ''  '' @ join (nl @ ''  '') ?lines =
        concat (map (\<lambda>(key, child). nl @ ''  '' @ ''('' @ key @ ''): '' @ addindent (repr child) 2) ms)"
      by (simp add: comp_def case_prod_unfold)
    with False show ?thesis by (simp add: m Let_def del: join.simps)
  qed
next
  show "split_nl (addindent s 2) = hd (split_nl s) # map (\<lambda>line. ''  '' @ line) (tl (split_nl s))"
    by (simp add: addindent_lines numeral_2_eq_2)
next
  show "join nl (split_nl s) = s" by (rule join_split_nl)
next
  show "repr (Module c fs [] ps) = c @ ''()''" by simp
next
  show "repr (setattr (Module_init ''Root'') ''inner'' (PyModule (Module_init ''Leaf''))) =
     ''Root('' @ nl @ ''  (inner): Leaf()'' @ nl @ '')''"
    by (simp add: Module_init_def addindent_def nl_def)
next
  show "split_nl s \<noteq> []" by (rule split_nl_nonempty)
next
  show "CHR 0x0A \<notin> set (concat (split_nl s))" by (rule split_nl_concat)
next
  show "addindent s 2 =
      join nl (hd (split_nl s) # map (\<lambda>line. ''  '' @ line) (tl (split_nl s)))"
    using addindent_join [of s 2] by (simp add: numeral_2_eq_2)
next
  show "addindent (''x'' @ nl @ ''y'' @ nl @ ''z'') 2 = ''x'' @ nl @ ''  y'' @ nl @ ''  z''"
    by (simp add: addindent_def nl_def numeral_2_eq_2)
next
  show "repr (setattr (setattr (Module_init ''Root'') ''a''
      (PyModule (setattr (Module_init ''A'') ''c'' (PyModule (Module_init ''C'')))))
      ''b'' (PyModule (Module_init ''B''))) =
     ''Root('' @ nl @
     ''  (a): A('' @ nl @
     ''    (c): C()'' @ nl @
     ''  )'' @ nl @
     ''  (b): B()'' @ nl @
     '')''"
    by (simp add: Module_init_def addindent_def nl_def numeral_2_eq_2)
next
  show "repr (setattr (Module_init ''Root'') ''a''
      (PyModule (setattr (Module_init ''A'') ''b''
         (PyModule (setattr (Module_init ''B'') ''c'' (PyModule (Module_init ''C''))))))) =
     ''Root('' @ nl @
     ''  (a): A('' @ nl @
     ''    (b): B('' @ nl @
     ''      (c): C()'' @ nl @
     ''    )'' @ nl @
     ''  )'' @ nl @
     '')''"
    by (simp add: Module_init_def addindent_def nl_def numeral_2_eq_2)
qed

section \<open>Properties of train and eval\<close>

lemma deref_prefix_valid: "deref root (r @ s) \<noteq> None \<Longrightarrow> deref root r \<noteq> None"
  by (auto simp: deref_append split: option.splits)

lemma deref_snoc:
  "deref root (r @ [i]) \<noteq> None \<longleftrightarrow> (\<exists>c. deref root r = Some c \<and> i < length (modules_d c))"
  by (cases "deref root r") (simp_all add: deref_append)

lemma set_modules_refs:
  "set (modules_refs root r) = {r @ [i] | i. deref root (r @ [i]) \<noteq> None}"
proof (cases "deref root r")
  case None
  then show ?thesis by (simp add: modules_refs_def deref_append)
next
  case (Some c)
  have "set (modules_refs root r) = (\<lambda>i. r @ [i]) ` {i. i < length (modules_d c)}"
    using Some by (simp add: modules_refs_def modules_def dict_values_def atLeast0LessThan lessThan_def)
  also have "\<dots> = {r @ [i] | i. i < length (modules_d c)}" by blast
  finally have e: "set (modules_refs root r) = {r @ [i] | i. i < length (modules_d c)}" .
  have v: "(deref root (r @ [i]) \<noteq> None) = (i < length (modules_d c))" for i
    using Some by (simp add: deref_append)
  show ?thesis unfolding v by (rule e)
qed

lemma belowI: "x = r @ s \<Longrightarrow> s = [] \<or> deref root (r @ s) \<noteq> None \<Longrightarrow> x \<in> below root r"
  unfolding below_def by blast

lemma belowE:
  assumes "x \<in> below root r"
  obtains s where "x = r @ s" "s = [] \<or> deref root (r @ s) \<noteq> None"
  using assms unfolding below_def by blast

lemma modules_refsE:
  assumes "r' \<in> set (modules_refs root r)"
  obtains i where "r' = r @ [i]" "deref root (r @ [i]) \<noteq> None"
  using assms unfolding set_modules_refs by blast

lemma below_unfold:
  "below root r = insert r (\<Union>r' \<in> set (modules_refs root r). below root r')"
proof (intro set_eqI iffI)
  fix x assume "x \<in> below root r"
  then obtain s where s: "x = r @ s" "s = [] \<or> deref root (r @ s) \<noteq> None"
    by (rule belowE)
  show "x \<in> insert r (\<Union>r' \<in> set (modules_refs root r). below root r')"
  proof (cases s)
    case Nil
    with s show ?thesis by simp
  next
    case (Cons i s')
    with s have v: "deref root ((r @ [i]) @ s') \<noteq> None" by simp
    then have "deref root (r @ [i]) \<noteq> None" by (rule deref_prefix_valid)
    then have "r @ [i] \<in> set (modules_refs root r)"
      unfolding set_modules_refs by blast
    moreover have "x = (r @ [i]) @ s'" using s(1) Cons by simp
    then have "x \<in> below root (r @ [i])" using v by (intro belowI [of x _ s']) simp_all
    ultimately show ?thesis by blast
  qed
next
  fix x assume "x \<in> insert r (\<Union>r' \<in> set (modules_refs root r). below root r')"
  then consider "x = r" | r' where "r' \<in> set (modules_refs root r)" "x \<in> below root r'"
    by blast
  then show "x \<in> below root r"
  proof cases
    case 1
    then show ?thesis by (intro belowI [of x r "[]"]) simp_all
  next
    case 2
    from 2(1) obtain i where i: "r' = r @ [i]" "deref root (r @ [i]) \<noteq> None"
      by (rule modules_refsE)
    from 2(2) obtain s where s: "x = r' @ s" "s = [] \<or> deref root (r' @ s) \<noteq> None"
      by (rule belowE)
    have a: "x = r @ (i # s)" using s(1) i(1) by simp
    from s(2) have "deref root (r' @ s) \<noteq> None"
    proof
      assume "s = []"
      with i show ?thesis by simp
    qed
    then have "deref root (r @ (i # s)) \<noteq> None" using i(1) by simp
    with a show ?thesis by (intro belowI [of x r "i # s"]) simp_all
  qed
qed

lemma set_visit_order: "set (visit_order root q) = (\<Union>r \<in> set q. below root r)"
proof (induction root q rule: visit_order.induct)
  case (1 root)
  then show ?case by simp
next
  case (2 root mChild to_set)
  have "set (visit_order root (mChild # to_set)) =
        insert mChild (set (visit_order root (to_set @ modules_refs root mChild)))"
    by simp
  also have "\<dots> = insert mChild
        ((\<Union>r \<in> set to_set. below root r) \<union>
         (\<Union>r \<in> set (modules_refs root mChild). below root r))"
    by (simp only: 2 set_append UN_Un)
  also have "\<dots> = below root mChild \<union> (\<Union>r \<in> set to_set. below root r)"
    by (subst below_unfold [of root mChild]) blast
  finally show ?case by simp
qed

lemma below_prefix: "x \<in> below root r \<Longrightarrow> prefix r x"
  by (erule belowE) simp

lemma distinct_modules_refs: "distinct (modules_refs root r)"
  by (auto simp: modules_refs_def distinct_map inj_on_def split: option.splits)

lemma antichain_step:
  assumes "antichain (r # q)"
  shows "antichain (q @ modules_refs root r)"
  unfolding antichain_def
proof (intro conjI ballI impI)
  from assms have d: "distinct (r # q)"
    and a: "\<And>x y. x \<in> set (r # q) \<Longrightarrow> y \<in> set (r # q) \<Longrightarrow> prefix x y \<Longrightarrow> x = y"
    by (auto simp: antichain_def)
  have kq: "x \<notin> set q" if "x \<in> set (modules_refs root r)" for x
  proof
    assume "x \<in> set q"
    moreover from that obtain i where "x = r @ [i]" by (rule modules_refsE)
    then have "prefix r x" by simp
    ultimately have "r = x" using a [of r x] by simp
    with \<open>x \<in> set q\<close> d show False by simp
  qed
  show "distinct (q @ modules_refs root r)"
    using d distinct_modules_refs [of root r] kq by auto
  fix x y
  assume x: "x \<in> set (q @ modules_refs root r)" and y: "y \<in> set (q @ modules_refs root r)"
    and p: "prefix x y"
  show "x = y"
  proof (cases "x \<in> set q")
    case xq: True
    show ?thesis
    proof (cases "y \<in> set q")
      case True
      with xq p a show ?thesis by simp
    next
      case False
      with y have "y \<in> set (modules_refs root r)" by simp
      then obtain i where i: "y = r @ [i]" by (rule modules_refsE)
      with p have "x = r @ [i] \<or> prefix x r" by (simp add: prefix_snoc)
      then show ?thesis
      proof
        assume "x = r @ [i]"
        with i show ?thesis by simp
      next
        assume "prefix x r"
        with a [of x r] xq have "x = r" by simp
        with xq d show ?thesis by simp
      qed
    qed
  next
    case False
    with x have "x \<in> set (modules_refs root r)" by simp
    then obtain i where i: "x = r @ [i]" by (rule modules_refsE)
    show ?thesis
    proof (cases "y \<in> set q")
      case True
      from i p have "prefix r y" by (metis append_prefixD)
      with a [of r y] True have "r = y" by simp
      with True d show ?thesis by simp
    next
      case False
      with y have "y \<in> set (modules_refs root r)" by simp
      then obtain j where j: "y = r @ [j]" by (rule modules_refsE)
      with i p show ?thesis by simp
    qed
  qed
qed

lemma distinct_visit_order: "antichain q \<Longrightarrow> distinct (visit_order root q)"
proof (induction root q rule: visit_order.induct)
  case (1 root)
  then show ?case by simp
next
  case (2 root r q)
  from 2(2) have d: "distinct (r # q)"
    and a: "\<And>x y. x \<in> set (r # q) \<Longrightarrow> y \<in> set (r # q) \<Longrightarrow> prefix x y \<Longrightarrow> x = y"
    by (auto simp: antichain_def)
  have "r \<notin> set (visit_order root (q @ modules_refs root r))"
  proof
    assume "r \<in> set (visit_order root (q @ modules_refs root r))"
    then obtain r' where r': "r' \<in> set q \<or> r' \<in> set (modules_refs root r)" "r \<in> below root r'"
      unfolding set_visit_order set_append by blast
    from r'(2) have p: "prefix r' r" by (rule below_prefix)
    from r'(1) show False
    proof
      assume "r' \<in> set q"
      with a [of r' r] p d show False by auto
    next
      assume "r' \<in> set (modules_refs root r)"
      then obtain i where "r' = r @ [i]" by (rule modules_refsE)
      with p show False by (simp add: prefix_def)
    qed
  qed
  moreover have "distinct (visit_order root (q @ modules_refs root r))"
    by (rule 2(1)) (rule antichain_step [OF 2(2)])
  ultimately show ?case by simp
qed

lemma antichain_children: "antichain (modules_refs root [])"
  unfolding antichain_def
proof (intro conjI ballI impI)
  show "distinct (modules_refs root [])" by (rule distinct_modules_refs)
  fix x y
  assume "x \<in> set (modules_refs root [])" "y \<in> set (modules_refs root [])" "prefix x y"
  then show "x = y" by (elim modules_refsE) simp
qed

lemma visit_order_all:
  "set (visit_order root (modules_refs root [])) = {r. r \<noteq> [] \<and> deref root r \<noteq> None}"
proof -
  have a: "below root [] = {r. deref root r \<noteq> None}"
    unfolding below_def by auto
  have b: "[] \<notin> (\<Union>r \<in> set (modules_refs root []). below root r)"
  proof
    assume "[] \<in> (\<Union>r \<in> set (modules_refs root []). below root r)"
    then obtain r where "r \<in> set (modules_refs root [])" "[] \<in> below root r" by blast
    then show False by (elim modules_refsE belowE) simp
  qed
  have "{r. deref root r \<noteq> None} =
        insert [] (\<Union>r \<in> set (modules_refs root []). below root r)"
    using below_unfold [of root "[]"] by (simp only: a)
  with b have "(\<Union>r \<in> set (modules_refs root []). below root r) =
        {r. r \<noteq> [] \<and> deref root r \<noteq> None}"
    by blast
  then show ?thesis by (simp only: set_visit_order)
qed

lemma modules_refs_assign_fun: "modules_refs (assign root r key (PyBool b)) = modules_refs root"
  by (rule ext) simp

lemma visit_order_assign:
  "visit_order (assign root r key (PyBool b)) q = visit_order root q"
proof (induction root q rule: visit_order.induct)
  case (1 root)
  then show ?case by simp
next
  case (2 root mChild to_set)
  then show ?case by simp
qed

lemma train_loop_set_all: "train_loop root q = set_all True root (visit_order root q)"
proof (induction root q rule: train_loop.induct)
  case (1 root)
  then show ?case by (simp add: set_all_def)
next
  case (2 root mChild to_set)
  then show ?case by (simp add: set_all_def visit_order_assign)
qed

lemma eval_loop_set_all: "eval_loop root q = set_all False root (visit_order root q)"
proof (induction root q rule: eval_loop.induct)
  case (1 root)
  then show ?case by (simp add: set_all_def)
next
  case (2 root mChild to_set)
  then show ?case by (simp add: set_all_def visit_order_assign)
qed

lemma fields_setattr_bool [simp]: "fields (setattr m key (PyBool b)) = dict_set (fields m) key (PyBool b)"
  by (cases m) simp

lemma training_at_assign:
  "training_at (assign m r ''training'' (PyBool b)) r' =
     (if r' = r \<and> deref m r \<noteq> None then Some (PyBool b) else training_at m r')"
proof (induction r' arbitrary: m r)
  case Nil
  obtain c fs ms ps where m: "m = Module c fs ms ps" by (cases m)
  show ?case
  proof (cases r)
    case Nil
    then show ?thesis by (simp add: training_at_def dict_get_set_same)
  next
    case (Cons j r0)
    then show ?thesis by (simp add: training_at_def m)
  qed
next
  case (Cons i r')
  obtain c fs ms ps where m: "m = Module c fs ms ps" by (cases m)
  show ?case
  proof (cases r)
    case Nil
    then show ?thesis by (simp add: training_at_def)
  next
    case r: (Cons j r0)
    show ?thesis
    proof (cases "j < length ms")
      case True
      show ?thesis
      proof (cases "i = j")
        case ij: True
        have "training_at (assign m r ''training'' (PyBool b)) (i # r') =
              training_at (assign (snd (ms ! j)) r0 ''training'' (PyBool b)) r'"
          using True ij by (simp add: training_at_def m r)
        also have "\<dots> = (if r' = r0 \<and> deref (snd (ms ! j)) r0 \<noteq> None then Some (PyBool b)
                           else training_at (snd (ms ! j)) r')"
          by (rule Cons.IH)
        also have "\<dots> = (if i # r' = r \<and> deref m r \<noteq> None then Some (PyBool b)
                           else training_at m (i # r'))"
          using True ij by (simp add: training_at_def m r)
        finally show ?thesis .
      next
        case False
        with True show ?thesis by (simp add: training_at_def m r)
      qed
    next
      case False
      then show ?thesis by (simp add: training_at_def m r)
    qed
  qed
qed

lemma deref_assign_None:
  "deref (assign m r key (PyBool b)) r' = None \<longleftrightarrow> deref m r' = None"
  using deref_assign_nodes [of m r key b r'] by (metis option.map_disc_iff)

lemma deref_set_all_None: "deref (set_all b root rs) r' = None \<longleftrightarrow> deref root r' = None"
  by (induction rs arbitrary: root) (simp_all add: set_all_def deref_assign_None)

lemma training_at_set_all:
  "training_at (set_all b root rs) r' =
     (if r' \<in> set rs \<and> deref root r' \<noteq> None then Some (PyBool b) else training_at root r')"
proof (induction rs arbitrary: root)
  case Nil
  then show ?case by (simp add: set_all_def)
next
  case (Cons r rs)
  have "training_at (set_all b root (r # rs)) r' =
        training_at (set_all b (assign root r ''training'' (PyBool b)) rs) r'"
    by (simp add: set_all_def)
  also have "\<dots> = (if r' \<in> set rs \<and> deref (assign root r ''training'' (PyBool b)) r' \<noteq> None
        then Some (PyBool b) else training_at (assign root r ''training'' (PyBool b)) r')"
    by (rule Cons.IH)
  also have "\<dots> = (if r' \<in> set (r # rs) \<and> deref root r' \<noteq> None then Some (PyBool b)
        else training_at root r')"
    by (auto simp: deref_assign_None training_at_assign)
  finally show ?case .
qed

lemma mode_everywhere:
  assumes "deref (set_all b (setattr self ''training'' (PyBool b))
             (visit_order (setattr self ''training'' (PyBool b))
                (modules_refs (setattr self ''training'' (PyBool b)) []))) r = Some c"
  shows "dict_get (fields c) ''training'' = Some (PyBool b)"
proof -
  let ?s = "setattr self ''training'' (PyBool b)"
  let ?rs = "visit_order ?s (modules_refs ?s [])"
  from assms have v: "deref ?s r \<noteq> None" using deref_set_all_None [of b ?s ?rs r] by simp
  have "training_at (set_all b ?s ?rs) r = Some (PyBool b)"
  proof (cases "r = []")
    case True
    have "[] \<notin> set ?rs" by (simp add: visit_order_all)
    then show ?thesis
      by (simp add: True training_at_set_all) (simp add: training_at_def dict_get_set_same)
  next
    case False
    with v have "r \<in> set ?rs" by (simp add: visit_order_all)
    with v show ?thesis by (simp add: training_at_set_all)
  qed
  with assms show ?thesis by (simp add: training_at_def)
qed

text \<open>The loop takes the references level by level: a shorter path never comes after a longer one.\<close>

lemma length_modules_refs: "x \<in> set (modules_refs root r) \<Longrightarrow> length x = Suc (length r)"
  by (erule modules_refsE) simp

lemma sorted_length_modules_refs: "sorted (map length (modules_refs root r))"
proof -
  have "map length (modules_refs root r) = replicate (length (modules_refs root r)) (Suc (length r))"
    by (intro replicate_eqI) (auto simp: length_modules_refs)
  then show ?thesis by (simp add: sorted_replicate)
qed

lemma visit_order_min:
  assumes "x \<in> set (visit_order root q)" and "\<forall>r' \<in> set q. n \<le> length r'"
  shows "n \<le> length x"
proof -
  from assms(1) obtain r' where r': "r' \<in> set q" "x \<in> below root r'"
    unfolding set_visit_order by blast
  from r'(2) have "prefix r' x" by (rule below_prefix)
  then have "length r' \<le> length x" by (rule prefix_length_le)
  with assms(2) r'(1) show ?thesis by fastforce
qed

lemma visit_order_level_sorted:
  "sorted (map length q) \<Longrightarrow> \<forall>r \<in> set q. length r \<le> Suc (length (hd q)) \<Longrightarrow>
   sorted (map length (visit_order root q))"
proof (induction root q rule: visit_order.induct)
  case (1 root)
  then show ?case by simp
next
  case (2 root r q)
  let ?q' = "q @ modules_refs root r"
  from 2(2) have sq: "sorted (map length q)" and ge: "\<forall>x \<in> set q. length r \<le> length x"
    by simp_all
  from 2(3) have le: "\<forall>x \<in> set q. length x \<le> Suc (length r)" by simp
  have ge': "\<forall>x \<in> set ?q'. length r \<le> length x"
    using ge by (auto simp: length_modules_refs)
  have le': "\<forall>x \<in> set ?q'. length x \<le> Suc (length r)"
    using le by (auto simp: length_modules_refs)
  have s': "sorted (map length ?q')"
    using sq le sorted_length_modules_refs [of root r]
    by (auto simp: sorted_append length_modules_refs)
  have b': "\<forall>x \<in> set ?q'. length x \<le> Suc (length (hd ?q'))"
  proof
    fix x assume x: "x \<in> set ?q'"
    then have "?q' \<noteq> []" by auto
    then have "hd ?q' \<in> set ?q'" by (rule hd_in_set)
    with ge' have "length r \<le> length (hd ?q')" by blast
    with le' x show "length x \<le> Suc (length (hd ?q'))" by fastforce
  qed
  have "sorted (map length (visit_order root ?q'))" by (rule 2(1) [OF s' b'])
  moreover have "\<forall>x \<in> set (visit_order root ?q'). length r \<le> length x"
    using visit_order_min [OF _ ge'] by blast
  ultimately show ?case by simp
qed

lemma visit_order_levels:
  "sorted (map length (visit_order root (modules_refs root [])))"
proof (rule visit_order_level_sorted)
  show "sorted (map length (modules_refs root []))" by (rule sorted_length_modules_refs)
  show "\<forall>r \<in> set (modules_refs root []). length r \<le> Suc (length (hd (modules_refs root [])))"
    by (auto simp: length_modules_refs)
qed

lemma visit_order_setattr:
  "visit_order (setattr self key (PyBool b)) q = visit_order self q"
  using visit_order_assign [of self "[]" key b q] by simp

lemma modules_refs_setattr:
  "modules_refs (setattr self key (PyBool b)) r = modules_refs self r"
  using modules_refs_assign [of self "[]" key b r] by simp

lemma deref_setattr_None:
  "deref (setattr self key (PyBool b)) r = None \<longleftrightarrow> deref self r = None"
  using deref_assign_None [of self "[]" key b r] by simp

lemma train_set_all:
  "train self = set_all True (setattr self ''training'' (PyBool True))
                  (visit_order self (modules_refs self []))"
  by (simp add: train_def train_loop_set_all visit_order_setattr modules_refs_setattr)

lemma eval_set_all:
  "eval_mode self = set_all False (setattr self ''training'' (PyBool False))
                  (visit_order self (modules_refs self []))"
  by (simp add: eval_mode_def eval_loop_set_all visit_order_setattr modules_refs_setattr)

text \<open>
  C2: after \<^verbatim>\<open>train\<close> every Module of the tree, the root included, has
  \<^verbatim>\<open>training\<close> set to \<^verbatim>\<open>True\<close>, and after \<^verbatim>\<open>eval\<close> to \<^verbatim>\<open>False\<close>; the tree has
  the same Modules as before. Either call assigns the mode to the root and then to
  the references its queue loop visits, and that loop visits every Module below the
  root, each exactly once, those nearer to the root first. On the tree Root with children A and B, A with child C,
  \<^verbatim>\<open>train\<close> followed by \<^verbatim>\<open>eval\<close> leaves \<^verbatim>\<open>False\<close> on all four.
\<close>

theorem mode_propagation:
  "(\<forall>r c. deref (train self) r = Some c \<longrightarrow>
       dict_get (fields c) ''training'' = Some (PyBool True)) \<and>
   (\<forall>r c. deref (eval_mode self) r = Some c \<longrightarrow>
       dict_get (fields c) ''training'' = Some (PyBool False)) \<and>
   (\<forall>r. (deref (train self) r = None) = (deref self r = None)) \<and>
   (\<forall>r. (deref (eval_mode self) r = None) = (deref self r = None)) \<and>
   train self = set_all True (setattr self ''training'' (PyBool True))
                  (visit_order self (modules_refs self [])) \<and>
   eval_mode self = set_all False (setattr self ''training'' (PyBool False))
                  (visit_order self (modules_refs self [])) \<and>
   distinct (visit_order self (modules_refs self [])) \<and>
   set (visit_order self (modules_refs self [])) = {r. r \<noteq> [] \<and> deref self r \<noteq> None} \<and>
   sorted (map length (visit_order self (modules_refs self []))) \<and>
   eval_mode (train
     (setattr (setattr (Module_init ''Root'') ''A''
        (PyModule (setattr (Module_init ''A'') ''C'' (PyModule (Module_init ''C'')))))
        ''B'' (PyModule (Module_init ''B'')))) =
     Module ''Root'' [(''training'', PyBool False)]
       [(''A'', Module ''A'' [(''training'', PyBool False)]
                  [(''C'', Module ''C'' [(''training'', PyBool False)] [] [])] []),
        (''B'', Module ''B'' [(''training'', PyBool False)] [] [])] []"
proof (intro conjI allI impI)
  fix r c
  assume "deref (train self) r = Some c"
  then show "dict_get (fields c) ''training'' = Some (PyBool True)"
    using mode_everywhere [of True self r c]
    by (simp add: train_set_all visit_order_setattr modules_refs_setattr)
next
  fix r c
  assume "deref (eval_mode self) r = Some c"
  then show "dict_get (fields c) ''training'' = Some (PyBool False)"
    using mode_everywhere [of False self r c]
    by (simp add: eval_set_all visit_order_setattr modules_refs_setattr)
next
  fix r
  show "(deref (train self) r = None) = (deref self r = None)"
    by (simp add: train_set_all deref_set_all_None deref_setattr_None)
  show "(deref (eval_mode self) r = None) = (deref self r = None)"
    by (simp add: eval_set_all deref_set_all_None deref_setattr_None)
next
  show "train self = set_all True (setattr self ''training'' (PyBool True))
                  (visit_order self (modules_refs self []))"
    by (rule train_set_all)
  show "eval_mode self = set_all False (setattr self ''training'' (PyBool False))
                  (visit_order self (modules_refs self []))"
    by (rule eval_set_all)
  show "distinct (visit_order self (modules_refs self []))"
    by (rule distinct_visit_order) (rule antichain_children)
  show "set (visit_order self (modules_refs self [])) = {r. r \<noteq> [] \<and> deref self r \<noteq> None}"
    by (rule visit_order_all)
  show "sorted (map length (visit_order self (modules_refs self [])))"
    by (rule visit_order_levels)
  show "eval_mode (train
     (setattr (setattr (Module_init ''Root'') ''A''
        (PyModule (setattr (Module_init ''A'') ''C'' (PyModule (Module_init ''C'')))))
        ''B'' (PyModule (Module_init ''B'')))) =
     Module ''Root'' [(''training'', PyBool False)]
       [(''A'', Module ''A'' [(''training'', PyBool False)]
                  [(''C'', Module ''C'' [(''training'', PyBool False)] [] [])] []),
        (''B'', Module ''B'' [(''training'', PyBool False)] [] [])] []"
    by (simp add: train_def eval_mode_def Module_init_def modules_refs_def modules_def
        dict_values_def)
qed

theorem mode_propagation_witness:
  "deref (train (setattr (Module_init ''Root'') ''A'' (PyModule
       (Module ''A'' [(''training'', PyBool False)] [] [])))) [0] =
     Some (Module ''A'' [(''training'', PyBool True)] [] []) \<and>
   dict_get (fields (Module ''A'' [(''training'', PyBool True)] [] [])) ''training'' =
     Some (PyBool True) \<and>
   deref (eval_mode (setattr (Module_init ''Root'') ''A'' (PyModule
       (Module ''A'' [(''training'', PyBool True)] [] [])))) [0] =
     Some (Module ''A'' [(''training'', PyBool False)] [] []) \<and>
   dict_get (fields (Module ''A'' [(''training'', PyBool False)] [] [])) ''training'' =
     Some (PyBool False)"
proof -
  let ?t = "setattr (Module_init ''Root'') ''A'' (PyModule
       (Module ''A'' [(''training'', PyBool False)] [] []))"
  let ?e = "setattr (Module_init ''Root'') ''A'' (PyModule
       (Module ''A'' [(''training'', PyBool True)] [] []))"
  have a: "deref (train ?t) [0] = Some (Module ''A'' [(''training'', PyBool True)] [] [])"
    by (simp add: train_def Module_init_def modules_refs_def modules_def dict_values_def)
  have b: "deref (eval_mode ?e) [0] = Some (Module ''A'' [(''training'', PyBool False)] [] [])"
    by (simp add: eval_mode_def Module_init_def modules_refs_def modules_def dict_values_def)
  have c: "dict_get (fields (Module ''A'' [(''training'', PyBool True)] [] [])) ''training'' =
     Some (PyBool True)"
    by (rule mode_propagation [of ?t, THEN conjunct1, rule_format, OF a])
  have d: "dict_get (fields (Module ''A'' [(''training'', PyBool False)] [] [])) ''training'' =
     Some (PyBool False)"
    by (rule mode_propagation [of ?e, THEN conjunct2, THEN conjunct1, rule_format, OF b])
  from a c b d show ?thesis by (intro conjI)
qed

end
